theory Spec2Isabelle
  imports Complex_Main "HOL-Library.AList" "HOL-Library.Sublist"
begin

section \<open>JSON values as the settings code sees them\<close>

text \<open>
  The settings file is read with \<open>JSON.parse\<close>, so the program works on plain JSON
  values. An object is an association list in the order in which JavaScript enumerates
  its keys; an array is a list. The code never computes with a number: it only tests a
  value for truthiness, where zero is the one falsy number that \<open>JSON.parse\<close> yields.
\<close>

datatype json =
    JNull
  | JBool bool
  | JNumber rat
  | JString string
  | JArray "json list"
  | JObject "(string \<times> json) list"

type_synonym obj = "(string \<times> json) list"

text \<open>JavaScript's truthiness: \<open>!v\<close> is true exactly when \<open>truthy v\<close> is false.\<close>

fun truthy :: "json \<Rightarrow> bool" where
  "truthy JNull = False"
| "truthy (JBool b) = b"
| "truthy (JNumber n) = (n \<noteq> 0)"
| "truthy (JString s) = (s \<noteq> [])"
| "truthy (JArray xs) = True"
| "truthy (JObject kvs) = True"

text \<open>
  \<open>v.name\<close> for a name that is neither an array index nor \<open>length\<close> (the code reads
  \<open>hooks\<close>, \<open>command\<close> and the event names); \<open>None\<close> stands for \<open>undefined\<close>. An
  object yields its member. An array that was parsed from JSON has no such member, and
  neither has a number, a string or a boolean. In the two callbacks the read stands behind
  the test \<open>typeof v !== "object" || v === null\<close>: a value that fails the test makes the
  callback return what it returns for a value without the member, so the model takes the
  same branch for both.
\<close>

fun field :: "json \<Rightarrow> string \<Rightarrow> json option" where
  "field (JObject kvs) name = map_of kvs name"
| "field v name = None"

text \<open>\<open>Array.isArray(v)\<close> together with the elements, for a value that may be \<open>undefined\<close>.\<close>

fun as_array :: "json option \<Rightarrow> json list option" where
  "as_array (Some (JArray xs)) = Some xs"
| "as_array v = None"

text \<open>\<open>typeof v === "string"\<close> together with the text.\<close>

fun as_string :: "json option \<Rightarrow> string option" where
  "as_string (Some (JString s)) = Some s"
| "as_string v = None"

text \<open>\<open>s.includes(sub)\<close>: \<open>sub\<close> occurs in \<open>s\<close> as a contiguous run.\<close>

fun str_includes :: "string \<Rightarrow> string \<Rightarrow> bool" where
  "str_includes [] sub = (sub = [])"
| "str_includes (c # cs) sub = (prefix sub (c # cs) \<or> str_includes cs sub)"

section \<open>The hook catalog\<close>

text \<open>
  Modelled from the spec: the constant \<open>DEFAULT_PORT\<close> is imported from the package
  \<open>@claude-blocker/shared\<close>, which is not among the sources. The spec says that the
  canonical command embeds the listener port used for detection, and detection looks for
  \<open>localhost:8765/hook\<close>. The definition holds the decimal digits that the template
  literal of \<open>HOOK_COMMAND\<close> interpolates.
\<close>

definition DEFAULT_PORT :: string where
  "DEFAULT_PORT = ''8765''"

definition HOOK_COMMAND :: string where
  "HOOK_COMMAND =
     ''curl -s -X POST http://localhost:'' @ DEFAULT_PORT @
     ''/hook -H 'Content-Type: application/json' -d \"$(cat)\" > /dev/null 2>&1 &''"

text \<open>The one action every catalog group carries.\<close>

definition hook_action :: json where
  "hook_action = JObject [(''type'', JString ''command''), (''command'', JString HOOK_COMMAND)]"

text \<open>\<open>HOOKS_CONFIG\<close>, in the order of \<open>Object.entries\<close>.\<close>

definition HOOKS_CONFIG :: "(string \<times> json list) list" where
  "HOOKS_CONFIG =
     [(''UserPromptSubmit'', [JObject [(''hooks'', JArray [hook_action])]]),
      (''PreToolUse'',
         [JObject [(''matcher'', JString ''*''), (''hooks'', JArray [hook_action])]]),
      (''Stop'', [JObject [(''hooks'', JArray [hook_action])]]),
      (''SessionStart'', [JObject [(''hooks'', JArray [hook_action])]]),
      (''SessionEnd'', [JObject [(''hooks'', JArray [hook_action])]]),
      (''Notification'',
         [JObject [(''matcher'', JString ''permission_prompt''),
                   (''hooks'', JArray [hook_action])]])]"

text \<open>\<open>Object.keys(HOOKS_CONFIG)\<close>.\<close>

definition hook_names :: "string list" where
  "hook_names = map fst HOOKS_CONFIG"

section \<open>Detection\<close>

text \<open>
  The callback that both \<open>hasOurHook\<close> and \<open>removeOurHookEntries\<close> apply to one element
  \<open>h\<close> of a group's \<open>hooks\<close> array; the two copies in the source are the same text.
\<close>

definition is_our_command :: "json \<Rightarrow> bool" where
  "is_our_command h =
     (case as_string (field h ''command'') of
        None \<Rightarrow> False
      | Some command \<Rightarrow> str_includes command ''localhost:8765/hook'')"

text \<open>The callback of \<open>hooks.some\<close> in \<open>hasOurHook\<close>, for one entry of an event's array.\<close>

definition entry_has_our_hook :: "json \<Rightarrow> bool" where
  "entry_has_our_hook entry =
     (case as_array (field entry ''hooks'') of
        None \<Rightarrow> False
      | Some hs \<Rightarrow> list_ex is_our_command hs)"

definition hasOurHook :: "json list \<Rightarrow> bool" where
  "hasOurHook hooks = list_ex entry_has_our_hook hooks"

text \<open>
  \<open>hasOnlyOurHook\<close> in the callback of \<open>hooks.filter\<close> in \<open>removeOurHookEntries\<close>;
  \<open>every\<close> holds of an empty array.
\<close>

definition hasOnlyOurHook :: "json list \<Rightarrow> bool" where
  "hasOnlyOurHook hs = list_all is_our_command hs"

text \<open>The callback of \<open>hooks.filter\<close>: whether the entry is kept.\<close>

definition keeps_entry :: "json \<Rightarrow> bool" where
  "keeps_entry entry =
     (case as_array (field entry ''hooks'') of
        None \<Rightarrow> True
      | Some hs \<Rightarrow> \<not> hasOnlyOurHook hs)"

definition removeOurHookEntries :: "json list \<Rightarrow> json list" where
  "removeOurHookEntries hooks = filter keeps_entry hooks"

section \<open>Merging: the transform of \<open>setupHooks\<close>\<close>

datatype error = TypeError

text \<open>
  The body of the loop over \<open>Object.entries(HOOKS_CONFIG)\<close>, for a hooks section that
  is an object. An array is always truthy, so \<open>!existing || !Array.isArray(existing)\<close>
  is \<open>!Array.isArray(existing)\<close>. An assignment to a key the object has replaces the value
  in place; to a new key it adds the key at the end.
\<close>

definition merge_event :: "string \<times> json list \<Rightarrow> obj \<Rightarrow> obj" where
  "merge_event ev hooks =
     (case as_array (map_of hooks (fst ev)) of
        None \<Rightarrow> AList.update (fst ev) (JArray (snd ev)) hooks
      | Some existing \<Rightarrow>
          if \<not> hasOurHook existing
          then AList.update (fst ev) (JArray (existing @ snd ev)) hooks
          else hooks)"

text \<open>
  Lines 115 to 131 of \<open>setupHooks\<close>, from the parsed settings to the document that is
  written back.
  \<^item> A missing or falsy \<open>hooks\<close> is replaced by an empty object before the loop.
  \<^item> A \<open>hooks\<close> that is a number, a string or a boolean (and truthy) makes the first
    assignment \<open>settings.hooks[hookName] = ourEntries\<close> throw a \<open>TypeError\<close>: the
    module is an ES module, hence strict code, and nothing catches the error.
  \<^item> A \<open>hooks\<close> that is an array receives the six entries as named properties of
    the array, which \<open>JSON.stringify\<close> leaves out: the document written is the one read.
\<close>

definition merge :: "obj \<Rightarrow> error + obj" where
  "merge settings =
     (case map_of settings ''hooks'' of
        None \<Rightarrow> Inr (AList.update ''hooks'' (JObject (fold merge_event HOOKS_CONFIG [])) settings)
      | Some v \<Rightarrow>
          if \<not> truthy v
          then Inr (AList.update ''hooks'' (JObject (fold merge_event HOOKS_CONFIG [])) settings)
          else (case v of
                  JObject hooks \<Rightarrow>
                    Inr (AList.update ''hooks'' (JObject (fold merge_event HOOKS_CONFIG hooks)) settings)
                | JArray xs \<Rightarrow> Inr settings
                | JNull \<Rightarrow> Inl TypeError
                | JBool b \<Rightarrow> Inl TypeError
                | JNumber n \<Rightarrow> Inl TypeError
                | JString s \<Rightarrow> Inl TypeError))"

section \<open>Pruning: the transform of \<open>removeHooks\<close>\<close>

text \<open>The body of the loop over \<open>Object.keys(HOOKS_CONFIG)\<close>, for a hooks section that is an object.\<close>

definition prune_event :: "string \<Rightarrow> obj \<Rightarrow> obj" where
  "prune_event hookName hooks =
     (case as_array (map_of hooks hookName) of
        None \<Rightarrow> hooks
      | Some existing \<Rightarrow>
          if removeOurHookEntries existing = []
          then AList.delete hookName hooks
          else AList.update hookName (JArray (removeOurHookEntries existing)) hooks)"

text \<open>
  \<open>Object.keys(v).length === 0\<close> for a truthy value \<open>v\<close>: an object or an array without
  members, and every number and boolean (they have no own enumerable property); a
  non-empty string has its indices as keys.
\<close>

fun no_keys :: "json \<Rightarrow> bool" where
  "no_keys (JObject kvs) = (kvs = [])"
| "no_keys (JArray xs) = (xs = [])"
| "no_keys (JString s) = (s = [])"
| "no_keys v = True"

text \<open>
  Lines 209 to 231 of \<open>removeHooks\<close>, from the parsed settings to the document the file
  holds afterwards. With a missing or falsy \<open>hooks\<close> nothing is written. A truthy
  \<open>hooks\<close> that is not an object has no member named after an event (reading a member
  of a number, a string, a boolean or a parsed array yields \<open>undefined\<close>), so the loop
  changes nothing and only the final test for an empty section applies.
\<close>

definition prune :: "obj \<Rightarrow> obj" where
  "prune settings =
     (case map_of settings ''hooks'' of
        None \<Rightarrow> settings
      | Some v \<Rightarrow>
          if \<not> truthy v then settings
          else (case v of
                  JObject hooks \<Rightarrow>
                    (if fold prune_event hook_names hooks = []
                     then AList.delete ''hooks'' settings
                     else AList.update ''hooks'' (JObject (fold prune_event hook_names hooks)) settings)
                | JArray xs \<Rightarrow> (if no_keys v then AList.delete ''hooks'' settings else settings)
                | JNull \<Rightarrow> settings
                | JBool b \<Rightarrow> (if no_keys v then AList.delete ''hooks'' settings else settings)
                | JNumber n \<Rightarrow> (if no_keys v then AList.delete ''hooks'' settings else settings)
                | JString s \<Rightarrow> (if no_keys v then AList.delete ''hooks'' settings else settings)))"

section \<open>The presence check: \<open>areHooksConfigured\<close>\<close>

text \<open>
  What the check finds at the settings path: no file; a file that cannot be read or
  whose content \<open>JSON.parse\<close> rejects; or the parsed value.
\<close>

datatype settings_file = Missing | Unparsable | Parsed json

text \<open>
  \<open>hookName in v\<close> for a truthy \<open>v\<close> throws a \<open>TypeError\<close> unless \<open>v\<close> is an object or
  an array; no event name is the name of a member of a parsed array or of a prototype.
\<close>

fun has_hook_key :: "json \<Rightarrow> error + bool" where
  "has_hook_key (JObject hooks) = Inr (list_ex (\<lambda>hookName. hookName \<in> fst ` set hooks) hook_names)"
| "has_hook_key (JArray xs) = Inr False"
| "has_hook_key v = Inl TypeError"

text \<open>
  \<open>settings.hooks\<close> for the parsed value: \<open>null\<close> throws, a number, a string, a boolean
  and an array have no such member.
\<close>

fun settings_hooks :: "json \<Rightarrow> error + json option" where
  "settings_hooks JNull = Inl TypeError"
| "settings_hooks (JObject kvs) = Inr (map_of kvs ''hooks'')"
| "settings_hooks v = Inr None"

definition areHooksConfigured :: "settings_file \<Rightarrow> bool" where
  "areHooksConfigured found =
     (case found of
        Missing \<Rightarrow> False
      | Unparsable \<Rightarrow> False
      | Parsed settings \<Rightarrow>
          (case settings_hooks settings of
             Inl e \<Rightarrow> False
           | Inr None \<Rightarrow> False
           | Inr (Some hooks) \<Rightarrow>
               if \<not> truthy hooks then False
               else (case has_hook_key hooks of Inl e \<Rightarrow> False | Inr b \<Rightarrow> b)))"

section \<open>Reading a document\<close>

text \<open>
  \<open>settings.hooks[event]\<close> as a reader of the written document finds it: the member of
  the hooks section when that section is an object, and nothing otherwise.
\<close>

definition event_entries :: "obj \<Rightarrow> string \<Rightarrow> json option" where
  "event_entries settings event =
     (case map_of settings ''hooks'' of None \<Rightarrow> None | Some v \<Rightarrow> field v event)"

text \<open>
  The strict classification as section 4.2 of the specification words it, to be compared
  with the test \<open>removeOurHookEntries\<close> makes: a group is ours iff its \<open>hooks\<close> is a
  non-empty sequence and every element is an object with a string \<open>command\<close> that
  contains the signature.
\<close>

definition spec_isOurs :: "json \<Rightarrow> bool" where
  "spec_isOurs entry =
     (case as_array (field entry ''hooks'') of
        None \<Rightarrow> False
      | Some hs \<Rightarrow> hs \<noteq> [] \<and> list_all is_our_command hs)"


section \<open>Proofs\<close>

subsection \<open>Association lists and detection\<close>

lemma as_array_Some: "as_array v = Some xs \<longleftrightarrow> v = Some (JArray xs)"
  by (cases v rule: as_array.cases) auto

lemma filter_update_other:
  "filter (\<lambda>p. fst p \<noteq> k) (AList.update k v al) = filter (\<lambda>p. fst p \<noteq> k) al"
  by (induction al) auto

lemma filter_delete_other:
  "filter (\<lambda>p. fst p \<noteq> k) (AList.delete k al) = filter (\<lambda>p. fst p \<noteq> k) al"
  by (induction al) auto

lemma hasOurHook_append: "hasOurHook (xs @ ys) = (hasOurHook xs \<or> hasOurHook ys)"
  by (simp add: hasOurHook_def)

lemma removeOurHookEntries_idem:
  "removeOurHookEntries (removeOurHookEntries xs) = removeOurHookEntries xs"
  by (simp add: removeOurHookEntries_def)

lemma our_command_HOOK_COMMAND: "is_our_command hook_action"
  by (simp add: is_our_command_def hook_action_def HOOK_COMMAND_def DEFAULT_PORT_def)

lemma config_has_our_hook: "ev \<in> set HOOKS_CONFIG \<Longrightarrow> hasOurHook (snd ev)"
  using our_command_HOOK_COMMAND
  by (auto simp: HOOKS_CONFIG_def hasOurHook_def entry_has_our_hook_def)

lemma config_entries_removed: "ev \<in> set HOOKS_CONFIG \<Longrightarrow> removeOurHookEntries (snd ev) = []"
  using our_command_HOOK_COMMAND
  by (auto simp: HOOKS_CONFIG_def removeOurHookEntries_def keeps_entry_def hasOnlyOurHook_def)

lemma distinct_hook_names: "distinct hook_names"
  by (simp add: hook_names_def HOOKS_CONFIG_def)

subsection \<open>Merge\<close>

lemma map_of_merge_event_other:
  "k \<noteq> fst ev \<Longrightarrow> map_of (merge_event ev h) k = map_of h k"
  by (simp add: merge_event_def update_conv' split: option.splits)

lemma map_of_merge_event_same:
  "map_of (merge_event ev h) (fst ev) =
     Some (JArray (case as_array (map_of h (fst ev)) of
                     None \<Rightarrow> snd ev
                   | Some existing \<Rightarrow> if hasOurHook existing then existing else existing @ snd ev))"
  by (auto simp: merge_event_def update_conv' as_array_Some split: option.splits)

lemma map_of_fold_merge_other:
  "k \<notin> fst ` set cfg \<Longrightarrow> map_of (fold merge_event cfg h) k = map_of h k"
  by (induction cfg arbitrary: h) (auto simp: map_of_merge_event_other)

lemma map_of_fold_merge:
  "distinct (map fst cfg) \<Longrightarrow> ev \<in> set cfg \<Longrightarrow>
   map_of (fold merge_event cfg h) (fst ev) =
     Some (JArray (case as_array (map_of h (fst ev)) of
                     None \<Rightarrow> snd ev
                   | Some existing \<Rightarrow> if hasOurHook existing then existing else existing @ snd ev))"
proof (induction cfg arbitrary: h)
  case Nil
  then show ?case by simp
next
  case (Cons a cfg)
  show ?case
  proof (cases "ev = a")
    case True
    with Cons.prems have "fst ev \<notin> fst ` set cfg" by auto
    then show ?thesis
      unfolding True by (simp add: map_of_fold_merge_other map_of_merge_event_same)
  next
    case False
    with Cons.prems have mem: "ev \<in> set cfg" and ne: "fst ev \<noteq> fst a" and d: "distinct (map fst cfg)"
      by (auto simp: image_iff)
    show ?thesis
      using Cons.IH [OF d mem, of "merge_event a h"] ne
      by (simp add: map_of_merge_event_other)
  qed
qed

lemma merge_event_settled:
  "map_of h (fst ev) = Some (JArray xs) \<Longrightarrow> hasOurHook xs \<Longrightarrow> merge_event ev h = h"
  by (simp add: merge_event_def)

lemma fold_merge_settled:
  "(\<And>ev. ev \<in> set cfg \<Longrightarrow> \<exists>xs. map_of h (fst ev) = Some (JArray xs) \<and> hasOurHook xs) \<Longrightarrow>
   fold merge_event cfg h = h"
proof (induction cfg)
  case Nil
  then show ?case by simp
next
  case (Cons a cfg)
  from Cons.prems [of a] obtain xs where "map_of h (fst a) = Some (JArray xs)" "hasOurHook xs"
    by auto
  then have "merge_event a h = h" by (rule merge_event_settled)
  with Cons show ?case by simp
qed

lemma distinct_config_names: "distinct (map fst HOOKS_CONFIG)"
  by (simp add: HOOKS_CONFIG_def)

lemma fold_merge_idem:
  "fold merge_event HOOKS_CONFIG (fold merge_event HOOKS_CONFIG h) = fold merge_event HOOKS_CONFIG h"
proof (rule fold_merge_settled)
  fix ev assume ev: "ev \<in> set HOOKS_CONFIG"
  show "\<exists>xs. map_of (fold merge_event HOOKS_CONFIG h) (fst ev) = Some (JArray xs) \<and> hasOurHook xs"
    using config_has_our_hook [OF ev]
    by (auto simp: map_of_fold_merge [OF distinct_config_names ev] hasOurHook_append
             split: option.splits)
qed

text \<open>
  Merge throws exactly for a \<open>hooks\<close> value that is truthy and neither an object nor an
  array; the type \<open>ClaudeSettings\<close> of the source admits no such value.
\<close>

lemma merge_throws_iff:
  "merge d = Inl TypeError \<longleftrightarrow>
     (\<exists>v. map_of d ''hooks'' = Some v \<and> truthy v \<and>
          (\<forall>h. v \<noteq> JObject h) \<and> (\<forall>xs. v \<noteq> JArray xs))"
  by (auto simp: merge_def split: option.splits json.splits)

text \<open>
  C2 (idempotence of merge): whenever merging a settings document \<open>d\<close> returns a
  document \<open>d'\<close>, merging \<open>d'\<close> returns \<open>d'\<close> again, so
  \<open>merge(merge(d)) = merge(d)\<close>. On a document whose \<open>hooks\<close> is a truthy number,
  string or boolean the first merge already throws and there is nothing to merge again.
\<close>

theorem merge_idempotent: "merge d = Inr d' \<Longrightarrow> merge d' = Inr d'"
  by (auto simp: merge_def update_conv' fold_merge_idem split: option.splits if_splits json.splits)

subsection \<open>Prune\<close>

lemma map_of_prune_event_other:
  "k \<noteq> E \<Longrightarrow> map_of (prune_event E h) k = map_of h k"
  by (simp add: prune_event_def update_conv' delete_conv' split: option.splits)

lemma map_of_prune_event_same:
  "map_of (prune_event E h) E =
     (case as_array (map_of h E) of
        None \<Rightarrow> map_of h E
      | Some existing \<Rightarrow>
          if removeOurHookEntries existing = [] then None
          else Some (JArray (removeOurHookEntries existing)))"
  by (simp add: prune_event_def update_conv' delete_conv' split: option.splits)

lemma map_of_fold_prune_other:
  "k \<notin> set names \<Longrightarrow> map_of (fold prune_event names h) k = map_of h k"
  by (induction names arbitrary: h) (auto simp: map_of_prune_event_other)

lemma map_of_fold_prune:
  "distinct names \<Longrightarrow> E \<in> set names \<Longrightarrow>
   map_of (fold prune_event names h) E =
     (case as_array (map_of h E) of
        None \<Rightarrow> map_of h E
      | Some existing \<Rightarrow>
          if removeOurHookEntries existing = [] then None
          else Some (JArray (removeOurHookEntries existing)))"
proof (induction names arbitrary: h)
  case Nil
  then show ?case by simp
next
  case (Cons a names)
  show ?case
  proof (cases "E = a")
    case True
    with Cons.prems have "E \<notin> set names" by auto
    then show ?thesis
      unfolding True [symmetric] by (simp add: map_of_fold_prune_other map_of_prune_event_same)
  next
    case False
    with Cons.prems have mem: "E \<in> set names" and d: "distinct names" by auto
    show ?thesis
      using Cons.IH [OF d mem, of "prune_event a h"] False
      by (simp add: map_of_prune_event_other cong: option.case_cong)
  qed
qed

lemma prune_event_settled_none:
  "as_array (map_of h E) = None \<Longrightarrow> prune_event E h = h"
  by (simp add: prune_event_def)

lemma prune_event_settled_kept:
  "map_of h E = Some (JArray xs) \<Longrightarrow> removeOurHookEntries xs = xs \<Longrightarrow> xs \<noteq> [] \<Longrightarrow>
   prune_event E h = h"
  by (simp add: prune_event_def update_triv)

lemma fold_prune_settled:
  "(\<And>E. E \<in> set names \<Longrightarrow>
      as_array (map_of h E) = None \<or>
      (\<exists>xs. map_of h E = Some (JArray xs) \<and> removeOurHookEntries xs = xs \<and> xs \<noteq> [])) \<Longrightarrow>
   fold prune_event names h = h"
proof (induction names)
  case Nil
  then show ?case by simp
next
  case (Cons a names)
  from Cons.prems [of a] have "prune_event a h = h"
    by (auto intro: prune_event_settled_none prune_event_settled_kept)
  with Cons show ?case by simp
qed

lemma fold_prune_idem:
  "fold prune_event hook_names (fold prune_event hook_names h) = fold prune_event hook_names h"
proof (rule fold_prune_settled)
  fix E assume E: "E \<in> set hook_names"
  show "as_array (map_of (fold prune_event hook_names h) E) = None \<or>
        (\<exists>xs. map_of (fold prune_event hook_names h) E = Some (JArray xs) \<and>
              removeOurHookEntries xs = xs \<and> xs \<noteq> [])"
    by (auto simp: map_of_fold_prune [OF distinct_hook_names E] removeOurHookEntries_idem
             split: option.splits)
qed

text \<open>
  C10 (idempotence of prune): for every settings document \<open>d\<close>, pruning the pruned
  document changes nothing, \<open>prune(prune(d)) = prune(d)\<close>.
\<close>

theorem prune_idempotent: "prune (prune d) = prune d"
  by (auto simp: prune_def update_conv' delete_conv' fold_prune_idem
           split: option.splits if_splits json.splits)

subsection \<open>The strict check against the specification\<close>

lemma keeps_entry_spec_isOurs:
  "as_array (field g ''hooks'') \<noteq> Some [] \<Longrightarrow> keeps_entry g = (\<not> spec_isOurs g)"
  by (auto simp: keeps_entry_def spec_isOurs_def hasOnlyOurHook_def split: option.splits)

lemma removeOurHookEntries_spec_isOurs:
  "\<forall>g \<in> set xs. as_array (field g ''hooks'') \<noteq> Some [] \<Longrightarrow>
   removeOurHookEntries xs = filter (\<lambda>g. \<not> spec_isOurs g) xs"
  unfolding removeOurHookEntries_def
  by (rule filter_cong) (simp_all add: keeps_entry_spec_isOurs)

lemma removeOurHookEntries_append:
  "removeOurHookEntries (xs @ ys) = removeOurHookEntries xs @ removeOurHookEntries ys"
  by (simp add: removeOurHookEntries_def)

subsection \<open>The events of a merged and of a pruned document\<close>

lemma config_name_in_hook_names: "ev \<in> set HOOKS_CONFIG \<Longrightarrow> fst ev \<in> set hook_names"
  by (simp add: hook_names_def)

lemma event_entries_merge:
  "map_of d ''hooks'' = Some (JObject h) \<Longrightarrow>
   merge d = Inr d' \<Longrightarrow> event_entries d' E = map_of (fold merge_event HOOKS_CONFIG h) E"
  by (auto simp: merge_def event_entries_def update_conv')

lemma event_entries_merge_unset:
  "map_of d ''hooks'' = None \<or> (\<exists>v. map_of d ''hooks'' = Some v \<and> \<not> truthy v) \<Longrightarrow>
   merge d = Inr d' \<Longrightarrow> event_entries d' E = map_of (fold merge_event HOOKS_CONFIG []) E"
  by (auto simp: merge_def event_entries_def update_conv')

lemma falsy_field: "\<not> truthy v \<Longrightarrow> field v E = None"
  by (cases v) auto

lemma event_entries_prune:
  "map_of d ''hooks'' = Some (JObject h) \<Longrightarrow>
   event_entries (prune d) E = map_of (fold prune_event hook_names h) E"
  by (simp add: prune_def event_entries_def update_conv' delete_conv')

text \<open>
  The policy of merge for one catalog event, for a document on which merge returns and
  whose \<open>hooks\<close> is not an array.
\<close>

lemma merge_event_policy_returned:
  assumes m: "merge d = Inr d'"
    and na: "as_array (map_of d ''hooks'') = None"
    and ev: "ev \<in> set HOOKS_CONFIG"
  shows "event_entries d' (fst ev) =
     Some (JArray (case as_array (event_entries d (fst ev)) of
                     None \<Rightarrow> snd ev
                   | Some existing \<Rightarrow> if hasOurHook existing then existing else existing @ snd ev))"
proof (cases "\<exists>h. map_of d ''hooks'' = Some (JObject h)")
  case True
  then obtain h where h: "map_of d ''hooks'' = Some (JObject h)" by blast
  have "event_entries d (fst ev) = map_of h (fst ev)"
    by (simp add: event_entries_def h)
  then show ?thesis
    by (simp add: event_entries_merge [OF h m] map_of_fold_merge [OF distinct_config_names ev])
next
  case False
  with m na have unset: "map_of d ''hooks'' = None \<or> (\<exists>v. map_of d ''hooks'' = Some v \<and> \<not> truthy v)"
    by (auto simp: merge_def split: option.splits if_splits json.splits)
  then have "event_entries d (fst ev) = None"
    by (auto simp: event_entries_def falsy_field)
  then show ?thesis
    by (simp add: event_entries_merge_unset [OF unset m]
          map_of_fold_merge [OF distinct_config_names ev])
qed

lemma falsy_not_array: "\<not> truthy v \<Longrightarrow> as_array (Some v) = None"
  by (cases v) auto

lemma merge_returns:
  assumes "map_of d ''hooks'' = None \<or>
           (\<exists>v. map_of d ''hooks'' = Some v \<and> (\<not> truthy v \<or> (\<exists>h. v = JObject h)))"
  shows "\<exists>d'. merge d = Inr d'" and "as_array (map_of d ''hooks'') = None"
  using assms by (auto simp: merge_def falsy_not_array)

text \<open>
  C5, as amended (merge policy per event): for every document whose \<open>hooks\<close> value is
  absent, falsy or an object, merge returns a document, and for each entry \<open>ev\<close> of the
  catalog (event name \<open>fst ev\<close>, canonical group sequence \<open>snd ev\<close>): if the
  document has no array at \<open>hooks[event]\<close> the merged document has the canonical
  sequence there; if it has an array that fails the loose check \<open>hasOurHook\<close>, it has
  that array followed by the canonical sequence; otherwise it has the array unmodified.
\<close>

theorem merge_event_policy:
  assumes sec: "map_of d ''hooks'' = None \<or>
           (\<exists>v. map_of d ''hooks'' = Some v \<and> (\<not> truthy v \<or> (\<exists>h. v = JObject h)))"
    and ev: "ev \<in> set HOOKS_CONFIG"
  shows "\<exists>d'. merge d = Inr d' \<and>
           event_entries d' (fst ev) =
             Some (JArray (case as_array (event_entries d (fst ev)) of
                             None \<Rightarrow> snd ev
                           | Some existing \<Rightarrow>
                               if hasOurHook existing then existing else existing @ snd ev))"
proof -
  from merge_returns [OF sec] obtain d'
    where m: "merge d = Inr d'" and na: "as_array (map_of d ''hooks'') = None" by blast
  from merge_event_policy_returned [OF m na ev] m show ?thesis by blast
qed

lemma config_group_has_our_hook:
  "ev \<in> set HOOKS_CONFIG \<Longrightarrow> g \<in> set (snd ev) \<Longrightarrow> entry_has_our_hook g"
  using our_command_HOOK_COMMAND
  by (auto simp: HOOKS_CONFIG_def entry_has_our_hook_def)

lemma hasOurHook_member: "g \<in> set xs \<Longrightarrow> entry_has_our_hook g \<Longrightarrow> hasOurHook xs"
  by (auto simp: hasOurHook_def list_ex_iff)

lemma event_entries_object:
  "event_entries d E = Some v \<Longrightarrow> \<exists>h. map_of d ''hooks'' = Some (JObject h) \<and> map_of h E = Some v"
  by (auto simp: event_entries_def split: option.splits elim: field.elims)

lemma merge_object: "map_of d ''hooks'' = Some (JObject h) \<Longrightarrow> \<exists>d'. merge d = Inr d'"
  by (simp add: merge_def)

lemma merge_keeps_settled_event:
  assumes ev: "ev \<in> set HOOKS_CONFIG"
    and xs: "event_entries d (fst ev) = Some (JArray xs)"
    and has: "hasOurHook xs"
  shows "\<exists>d'. merge d = Inr d' \<and> event_entries d' (fst ev) = Some (JArray xs)"
proof -
  from event_entries_object [OF xs] obtain h
    where h: "map_of d ''hooks'' = Some (JObject h)" and hx: "map_of h (fst ev) = Some (JArray xs)"
    by blast
  from merge_object [OF h] obtain d' where m: "merge d = Inr d'" by blast
  have "event_entries d' (fst ev) = Some (JArray xs)"
    using has
    by (simp add: event_entries_merge [OF h m] map_of_fold_merge [OF distinct_config_names ev] hx)
  with m show ?thesis by blast
qed

text \<open>
  C6, as amended (no duplication): when the sequence of a catalog event already contains
  the catalog's canonical group of that event, merging once and merging twice both
  succeed and leave the event's sequence exactly as it was. The event therefore holds as
  many groups of ours afterwards as before (one if it held one), and merge inserts no
  canonical group where one is present.
\<close>

theorem merge_no_duplicate:
  assumes ev: "ev \<in> set HOOKS_CONFIG"
    and xs: "event_entries d (fst ev) = Some (JArray xs)"
    and g: "g \<in> set (snd ev)" "g \<in> set xs"
  shows "\<exists>d' d''. merge d = Inr d' \<and> merge d' = Inr d'' \<and>
           event_entries d' (fst ev) = Some (JArray xs) \<and>
           event_entries d'' (fst ev) = Some (JArray xs)"
proof -
  have has: "hasOurHook xs"
    using g config_group_has_our_hook [OF ev] by (blast intro: hasOurHook_member)
  from merge_keeps_settled_event [OF ev xs has] obtain d'
    where 1: "merge d = Inr d'" "event_entries d' (fst ev) = Some (JArray xs)" by blast
  from merge_keeps_settled_event [OF ev 1(2) has] obtain d''
    where 2: "merge d' = Inr d''" "event_entries d'' (fst ev) = Some (JArray xs)" by blast
  from 1 2 show ?thesis by blast
qed

text \<open>
  C7 (strict against loose): let a group \<open>g\<close> with the action sequence \<open>hs\<close> hold a
  foreign command action (its string command lacks the signature) and an action whose
  string command contains the signature, and let \<open>g\<close> stand in the sequence \<open>xs\<close> of a
  catalog event of the document \<open>d\<close>. Then the loose check \<open>hasOurHook\<close> holds of
  \<open>xs\<close> and merge leaves the event's sequence unmodified, while the strict filter
  keeps \<open>g\<close> and prune leaves \<open>g\<close> in the event's sequence.
\<close>

theorem mixed_group_asymmetry:
  assumes hs: "field g ''hooks'' = Some (JArray hs)"
    and foreign: "foreign \<in> set hs" "field foreign ''command'' = Some (JString c1)"
                 "\<not> str_includes c1 ''localhost:8765/hook''"
    and ours: "ours \<in> set hs" "field ours ''command'' = Some (JString c2)"
              "str_includes c2 ''localhost:8765/hook''"
    and ev: "ev \<in> set HOOKS_CONFIG"
    and xs: "event_entries d (fst ev) = Some (JArray xs)"
    and g: "g \<in> set xs"
  shows "hasOurHook xs \<and>
         (\<exists>d'. merge d = Inr d' \<and> event_entries d' (fst ev) = Some (JArray xs)) \<and>
         g \<in> set (removeOurHookEntries xs) \<and>
         event_entries (prune d) (fst ev) = Some (JArray (removeOurHookEntries xs))"
proof -
  have "is_our_command ours" using ours by (simp add: is_our_command_def)
  with ours(1) hs have "entry_has_our_hook g"
    by (auto simp: entry_has_our_hook_def list_ex_iff)
  with g have has: "hasOurHook xs" by (rule hasOurHook_member)
  have "\<not> is_our_command foreign" using foreign by (simp add: is_our_command_def)
  with foreign(1) hs have "keeps_entry g"
    by (auto simp: keeps_entry_def hasOnlyOurHook_def list_all_iff)
  with g have kept: "g \<in> set (removeOurHookEntries xs)"
    by (simp add: removeOurHookEntries_def)
  then have ne: "removeOurHookEntries xs \<noteq> []" by auto
  from event_entries_object [OF xs] obtain h
    where h: "map_of d ''hooks'' = Some (JObject h)" and hx: "map_of h (fst ev) = Some (JArray xs)"
    by blast
  have "event_entries (prune d) (fst ev) = Some (JArray (removeOurHookEntries xs))"
    using ne
    by (simp add: event_entries_prune [OF h]
          map_of_fold_prune [OF distinct_hook_names config_name_in_hook_names [OF ev]] hx)
  with has kept merge_keeps_settled_event [OF ev xs has] show ?thesis by blast
qed

subsection \<open>What prune deletes\<close>

lemma alist_empty_iff: "al = [] \<longleftrightarrow> (\<forall>k. map_of al k = None)"
  by (cases al) (auto simp: fun_upd_def split: if_splits)

lemma map_of_fold_prune_None:
  "map_of (fold prune_event hook_names h) k = None \<longleftrightarrow>
     k \<notin> fst ` set h \<or>
     (k \<in> set hook_names \<and> (\<exists>xs. map_of h k = Some (JArray xs) \<and> removeOurHookEntries xs = []))"
proof (cases "k \<in> set hook_names")
  case True
  show ?thesis
    using True
    by (cases "map_of h k")
       (auto simp: map_of_fold_prune [OF distinct_hook_names True] map_of_eq_None_iff [symmetric]
               as_array_Some
             split: option.splits)
next
  case False
  then show ?thesis
    by (simp add: map_of_fold_prune_other map_of_eq_None_iff [symmetric])
qed

lemma fold_prune_empty_iff:
  "fold prune_event hook_names h = [] \<longleftrightarrow>
     (\<forall>k \<in> fst ` set h. k \<in> set hook_names \<and>
        (\<exists>xs. map_of h k = Some (JArray xs) \<and> removeOurHookEntries xs = []))"
  unfolding alist_empty_iff [of "fold prune_event hook_names h"] map_of_fold_prune_None
  by blast

text \<open>
  The cleanup of prune in terms of the filter \<open>removeOurHookEntries\<close> that the code
  applies: for a document whose hooks section is the object \<open>h\<close>, and each catalog
  event that \<open>h\<close> maps to an array \<open>xs\<close>, the pruned document has no such event key
  if the filter empties \<open>xs\<close>, and the filtered sequence otherwise. The \<open>hooks\<close> key
  is deleted exactly when every key of the section was such an emptied event; when the key
  stays it holds a non-empty object.
\<close>

lemma prune_cleanup_code_filter:
  assumes h: "map_of d ''hooks'' = Some (JObject h)"
  shows "(\<forall>E xs. E \<in> set hook_names \<and> map_of h E = Some (JArray xs) \<longrightarrow>
            event_entries (prune d) E =
              (if removeOurHookEntries xs = [] then None
               else Some (JArray (removeOurHookEntries xs)))) \<and>
         (''hooks'' \<notin> fst ` set (prune d) \<longleftrightarrow>
            (\<forall>k \<in> fst ` set h. k \<in> set hook_names \<and>
               (\<exists>xs. map_of h k = Some (JArray xs) \<and> removeOurHookEntries xs = []))) \<and>
         (''hooks'' \<in> fst ` set (prune d) \<longrightarrow>
            (\<exists>h'. h' \<noteq> [] \<and> map_of (prune d) ''hooks'' = Some (JObject h')))"
proof (intro conjI allI impI)
  fix E xs assume "E \<in> set hook_names \<and> map_of h E = Some (JArray xs)"
  then show "event_entries (prune d) E =
      (if removeOurHookEntries xs = [] then None else Some (JArray (removeOurHookEntries xs)))"
    by (simp add: event_entries_prune [OF h] map_of_fold_prune [OF distinct_hook_names])
next
  have "''hooks'' \<notin> fst ` set (prune d) \<longleftrightarrow> fold prune_event hook_names h = []"
    using h by (simp add: prune_def map_of_eq_None_iff [symmetric] update_conv' delete_conv')
  then show "''hooks'' \<notin> fst ` set (prune d) \<longleftrightarrow>
      (\<forall>k \<in> fst ` set h. k \<in> set hook_names \<and>
         (\<exists>xs. map_of h k = Some (JArray xs) \<and> removeOurHookEntries xs = []))"
    by (simp only: fold_prune_empty_iff)
next
  assume "''hooks'' \<in> fst ` set (prune d)"
  then have "map_of (prune d) ''hooks'' \<noteq> None"
    by (simp add: map_of_eq_None_iff)
  then show "\<exists>h'. h' \<noteq> [] \<and> map_of (prune d) ''hooks'' = Some (JObject h')"
    using h
    by (cases "fold prune_event hook_names h = []")
       (simp_all add: prune_def update_conv' delete_conv')
qed

text \<open>
  Where no group of the event has an empty \<open>hooks\<close> sequence, the filter is the strict
  check of the specification and the cleanup is the one the specification describes.
\<close>

lemma prune_cleanup_strict_check:
  assumes h: "map_of d ''hooks'' = Some (JObject h)"
    and E: "E \<in> set hook_names"
    and xs: "map_of h E = Some (JArray xs)"
    and ne: "\<forall>g \<in> set xs. as_array (field g ''hooks'') \<noteq> Some []"
  shows "event_entries (prune d) E =
           (if filter (\<lambda>g. \<not> spec_isOurs g) xs = [] then None
            else Some (JArray (filter (\<lambda>g. \<not> spec_isOurs g) xs)))"
  using removeOurHookEntries_spec_isOurs [OF ne]
  by (simp add: event_entries_prune [OF h] map_of_fold_prune [OF distinct_hook_names E] xs)

text \<open>
  C9 (presence check): \<open>areHooksConfigured\<close> returns true iff the settings file
  exists, parses to an object, has a hooks section that is an object, and that section
  has a key equal to a catalog event name; the value under the key is not looked at.
  In particular it returns false for a missing file and for content that does not parse.
\<close>

theorem areHooksConfigured_iff:
  "areHooksConfigured sf =
     (\<exists>settings hooks. sf = Parsed (JObject settings) \<and>
        map_of settings ''hooks'' = Some (JObject hooks) \<and>
        (\<exists>hookName \<in> set hook_names. hookName \<in> fst ` set hooks)) \<and>
   \<not> areHooksConfigured Missing \<and> \<not> areHooksConfigured Unparsable"
proof -
  have "areHooksConfigured sf =
     (\<exists>settings hooks. sf = Parsed (JObject settings) \<and>
        map_of settings ''hooks'' = Some (JObject hooks) \<and>
        (\<exists>hookName \<in> set hook_names. hookName \<in> fst ` set hooks))"
  proof (cases sf)
    case (Parsed v)
    show ?thesis
    proof (cases v)
      case (JObject settings)
      show ?thesis
      proof (cases "map_of settings ''hooks''")
        case None
        then show ?thesis by (simp add: areHooksConfigured_def Parsed JObject)
      next
        case (Some hv)
        then show ?thesis
          by (cases hv) (auto simp: areHooksConfigured_def Parsed JObject list_ex_iff)
      qed
    qed (simp_all add: areHooksConfigured_def Parsed)
  qed (simp_all add: areHooksConfigured_def)
  then show ?thesis by (simp add: areHooksConfigured_def)
qed

subsection \<open>Merge followed by prune\<close>

lemma prune_not_object:
  "\<forall>h. map_of d ''hooks'' \<noteq> Some (JObject h) \<Longrightarrow> event_entries (prune d) E = None"
  by (auto simp: prune_def event_entries_def delete_conv' falsy_field
           split: option.splits json.splits)

lemma merge_result_hooks:
  "merge d = Inr d' \<Longrightarrow>
   (\<exists>xs. map_of d ''hooks'' = Some (JArray xs) \<and> d' = d) \<or>
   (\<exists>h. map_of d ''hooks'' = Some (JObject h) \<and>
        map_of d' ''hooks'' = Some (JObject (fold merge_event HOOKS_CONFIG h))) \<or>
   ((\<forall>v. map_of d ''hooks'' = Some v \<longrightarrow> \<not> truthy v) \<and>
        map_of d' ''hooks'' = Some (JObject (fold merge_event HOOKS_CONFIG [])))"
  by (auto simp: merge_def update_conv' split: option.splits if_splits json.splits)

lemma merge_result_section:
  "merge d = Inr d' \<Longrightarrow>
   (\<exists>xs. map_of d ''hooks'' = Some (JArray xs) \<and> d' = d) \<or>
   (\<exists>h0. map_of d' ''hooks'' = Some (JObject (fold merge_event HOOKS_CONFIG h0)) \<and>
         (\<forall>E. event_entries d E = map_of h0 E))"
proof -
  assume m: "merge d = Inr d'"
  from merge_result_hooks [OF m] show ?thesis
  proof (elim disjE exE conjE)
    fix h assume "map_of d ''hooks'' = Some (JObject h)"
      and "map_of d' ''hooks'' = Some (JObject (fold merge_event HOOKS_CONFIG h))"
    then have "map_of d' ''hooks'' = Some (JObject (fold merge_event HOOKS_CONFIG h)) \<and>
         (\<forall>E. event_entries d E = map_of h E)"
      by (simp add: event_entries_def)
    then show ?thesis by blast
  next
    assume "\<forall>v. map_of d ''hooks'' = Some v \<longrightarrow> \<not> truthy v"
      and "map_of d' ''hooks'' = Some (JObject (fold merge_event HOOKS_CONFIG []))"
    then have "map_of d' ''hooks'' = Some (JObject (fold merge_event HOOKS_CONFIG [])) \<and>
         (\<forall>E. event_entries d E = map_of [] E)"
      by (auto simp: event_entries_def falsy_field split: option.splits)
    then show ?thesis by blast
  qed blast
qed

lemma removeOurHookEntries_merged:
  assumes ev: "ev \<in> set HOOKS_CONFIG"
  shows "removeOurHookEntries
           (case v of None \<Rightarrow> snd ev
            | Some existing \<Rightarrow> if hasOurHook existing then existing else existing @ snd ev) =
         removeOurHookEntries (case v of None \<Rightarrow> [] | Some existing \<Rightarrow> existing)"
  using config_entries_removed [OF ev]
  by (cases v) (simp_all add: removeOurHookEntries_append removeOurHookEntries_def)

lemma keeps_entry_iff:
  "keeps_entry g \<longleftrightarrow> \<not> spec_isOurs g \<and> as_array (field g ''hooks'') \<noteq> Some []"
  by (auto simp: keeps_entry_def spec_isOurs_def hasOnlyOurHook_def split: option.splits)

lemma removeOurHookEntries_with_actions:
  "filter (\<lambda>g. as_array (field g ''hooks'') \<noteq> Some []) (removeOurHookEntries xs) =
   filter (\<lambda>g. as_array (field g ''hooks'') \<noteq> Some [] \<and> \<not> spec_isOurs g) xs"
  unfolding removeOurHookEntries_def filter_filter
  by (rule filter_cong) (auto simp: keeps_entry_iff)

lemma removeOurHookEntries_subseq:
  "subseq (removeOurHookEntries xs) (filter (\<lambda>g. \<not> spec_isOurs g) xs)"
proof -
  have eq: "filter keeps_entry xs = filter keeps_entry (filter (\<lambda>g. \<not> spec_isOurs g) xs)"
    by (induction xs) (auto simp: keeps_entry_iff)
  show ?thesis
    unfolding removeOurHookEntries_def by (subst eq) (rule subseq_filter_left)
qed

lemma round_trip_listed:
  assumes m: "merge d = Inr d'"
    and orig: "original = (case as_array (event_entries d E) of None \<Rightarrow> [] | Some xs \<Rightarrow> xs)"
    and E: "E \<in> set hook_names"
  shows "event_entries (prune d') E =
           (if removeOurHookEntries original = [] then None
            else Some (JArray (removeOurHookEntries original)))"
proof -
  from merge_result_section [OF m] show ?thesis
  proof (elim disjE exE conjE)
    fix xs assume a: "map_of d ''hooks'' = Some (JArray xs)" and same: "d' = d"
    then have none: "event_entries d E = None" by (simp add: event_entries_def)
    have "event_entries (prune d) E = None"
      by (rule prune_not_object) (simp add: a)
    with none orig same show ?thesis by (simp add: removeOurHookEntries_def)
  next
    fix h0 assume h': "map_of d' ''hooks'' = Some (JObject (fold merge_event HOOKS_CONFIG h0))"
      and view: "\<forall>E. event_entries d E = map_of h0 E"
    from E obtain ev where ev: "ev \<in> set HOOKS_CONFIG" and name: "fst ev = E"
      by (auto simp: hook_names_def)
    have o: "original = (case as_array (map_of h0 E) of None \<Rightarrow> [] | Some xs \<Rightarrow> xs)"
      using orig view by simp
    have "removeOurHookEntries
            (case as_array (map_of h0 E) of None \<Rightarrow> snd ev
             | Some existing \<Rightarrow> if hasOurHook existing then existing else existing @ snd ev) =
          removeOurHookEntries original"
      unfolding o by (rule removeOurHookEntries_merged [OF ev])
    then show ?thesis
      using map_of_fold_merge [OF distinct_config_names ev, of h0]
      by (simp add: event_entries_prune [OF h'] map_of_fold_prune [OF distinct_hook_names E]
            name)
  qed
qed

lemma round_trip_unlisted:
  assumes m: "merge d = Inr d'" and out: "E \<notin> set hook_names"
  shows "event_entries (prune d') E = event_entries d E"
proof -
  from merge_result_section [OF m] show ?thesis
  proof (elim disjE exE conjE)
    fix xs assume a: "map_of d ''hooks'' = Some (JArray xs)" and same: "d' = d"
    then have none: "event_entries d E = None" by (simp add: event_entries_def)
    have "event_entries (prune d) E = None"
      by (rule prune_not_object) (simp add: a)
    with none same show ?thesis by simp
  next
    fix h0 assume h': "map_of d' ''hooks'' = Some (JObject (fold merge_event HOOKS_CONFIG h0))"
      and view: "\<forall>E. event_entries d E = map_of h0 E"
    from out have "E \<notin> fst ` set HOOKS_CONFIG" by (simp add: hook_names_def)
    then show ?thesis
      using out view
      by (simp add: event_entries_prune [OF h'] map_of_fold_prune_other map_of_fold_merge_other)
  qed
qed

theorem prune_merge_round_trip:
  assumes m: "merge d = Inr d'"
    and orig: "original = (case as_array (event_entries d E) of None \<Rightarrow> [] | Some xs \<Rightarrow> xs)"
  shows "(E \<in> set hook_names \<longrightarrow>
            (\<exists>ys. event_entries (prune d') E = (if ys = [] then None else Some (JArray ys)) \<and>
                  filter (\<lambda>g. as_array (field g ''hooks'') \<noteq> Some []) ys =
                    filter (\<lambda>g. as_array (field g ''hooks'') \<noteq> Some [] \<and> \<not> spec_isOurs g)
                      original \<and>
                  subseq ys (filter (\<lambda>g. \<not> spec_isOurs g) original))) \<and>
         (E \<notin> set hook_names \<longrightarrow> event_entries (prune d') E = event_entries d E)"
proof (intro conjI impI)
  assume E: "E \<in> set hook_names"
  let ?ys = "removeOurHookEntries original"
  have "event_entries (prune d') E = (if ?ys = [] then None else Some (JArray ?ys))"
    by (rule round_trip_listed [OF m orig E])
  moreover have "filter (\<lambda>g. as_array (field g ''hooks'') \<noteq> Some []) ?ys =
      filter (\<lambda>g. as_array (field g ''hooks'') \<noteq> Some [] \<and> \<not> spec_isOurs g) original"
    by (rule removeOurHookEntries_with_actions)
  moreover have "subseq ?ys (filter (\<lambda>g. \<not> spec_isOurs g) original)"
    by (rule removeOurHookEntries_subseq)
  ultimately show "\<exists>ys. event_entries (prune d') E = (if ys = [] then None else Some (JArray ys)) \<and>
                  filter (\<lambda>g. as_array (field g ''hooks'') \<noteq> Some []) ys =
                    filter (\<lambda>g. as_array (field g ''hooks'') \<noteq> Some [] \<and> \<not> spec_isOurs g)
                      original \<and>
                  subseq ys (filter (\<lambda>g. \<not> spec_isOurs g) original)"
    by blast
next
  assume "E \<notin> set hook_names"
  then show "event_entries (prune d') E = event_entries d E"
    by (rule round_trip_unlisted [OF m])
qed

subsection \<open>What the transforms leave alone\<close>

text \<open>
  Every top-level key other than \<open>hooks\<close> keeps its value and its place among the
  others, under merge and under prune.
\<close>

lemma merge_foreign_keys:
  "merge d = Inr d' \<Longrightarrow> filter (\<lambda>p. fst p \<noteq> ''hooks'') d' = filter (\<lambda>p. fst p \<noteq> ''hooks'') d"
  by (auto simp: merge_def filter_update_other split: option.splits if_splits json.splits)

lemma prune_foreign_keys:
  "filter (\<lambda>p. fst p \<noteq> ''hooks'') (prune d) = filter (\<lambda>p. fst p \<noteq> ''hooks'') d"
  by (auto simp: prune_def filter_update_other filter_delete_other
           split: option.splits json.splits)


lemma config_groups_ours:
  "ev \<in> set HOOKS_CONFIG \<Longrightarrow> filter (\<lambda>g. \<not> spec_isOurs g) (snd ev) = []"
  using our_command_HOOK_COMMAND
  by (auto simp: HOOKS_CONFIG_def spec_isOurs_def)

text \<open>
  Merge keeps, under every event that holds an array, the groups that are not ours, in
  their order. Prune does so for the groups that have at least one action.
\<close>

lemma merge_keeps_foreign_groups:
  assumes m: "merge d = Inr d'"
    and xs: "event_entries d E = Some (JArray xs)"
  shows "\<exists>ys. event_entries d' E = Some (JArray ys) \<and>
           filter (\<lambda>g. \<not> spec_isOurs g) ys = filter (\<lambda>g. \<not> spec_isOurs g) xs"
proof -
  from event_entries_object [OF xs] obtain h
    where h: "map_of d ''hooks'' = Some (JObject h)" and hx: "map_of h E = Some (JArray xs)"
    by blast
  show ?thesis
  proof (cases "E \<in> fst ` set HOOKS_CONFIG")
    case True
    then obtain ev where ev: "ev \<in> set HOOKS_CONFIG" and name: "fst ev = E" by auto
    from map_of_fold_merge [OF distinct_config_names ev, of h] config_groups_ours [OF ev]
    show ?thesis
      by (simp add: event_entries_merge [OF h m] name hx)
  next
    case False
    then show ?thesis
      by (simp add: event_entries_merge [OF h m] map_of_fold_merge_other hx)
  qed
qed

lemma prune_keeps_foreign_groups:
  assumes xs: "event_entries d E = Some (JArray xs)"
    and ne: "\<forall>g \<in> set xs. as_array (field g ''hooks'') \<noteq> Some []"
  shows "filter (\<lambda>g. \<not> spec_isOurs g)
           (case as_array (event_entries (prune d) E) of None \<Rightarrow> [] | Some ys \<Rightarrow> ys) =
         filter (\<lambda>g. \<not> spec_isOurs g) xs"
proof -
  from event_entries_object [OF xs] obtain h
    where h: "map_of d ''hooks'' = Some (JObject h)" and hx: "map_of h E = Some (JArray xs)"
    by blast
  show ?thesis
  proof (cases "E \<in> set hook_names")
    case True
    show ?thesis
      using removeOurHookEntries_spec_isOurs [OF ne]
      by (simp add: event_entries_prune [OF h] map_of_fold_prune [OF distinct_hook_names True] hx)
  next
    case False
    then show ?thesis
      by (simp add: event_entries_prune [OF h] map_of_fold_prune_other hx)
  qed
qed

section \<open>The claims at concrete documents\<close>


text \<open>
  The equations that evaluate the transforms on a concrete document. The first two keep
  \<open>hook_action\<close> folded and use that its command carries the signature.
\<close>

lemmas merge_eval = merge_def merge_event_def HOOKS_CONFIG_def hasOurHook_def
  entry_has_our_hook_def our_command_HOOK_COMMAND
lemmas prune_eval = prune_def prune_event_def hook_names_def HOOKS_CONFIG_def
  removeOurHookEntries_def keeps_entry_def hasOnlyOurHook_def our_command_HOOK_COMMAND

text \<open>
  C2 at a document without a hooks section: the merged document gains the six catalog
  events after the foreign key, and merging it again returns it unchanged.
\<close>

theorem merge_idempotent_witness:
  "merge [(''model'', JString ''opus'')] =
     Inr [(''model'', JString ''opus''),
          (''hooks'', JObject (map (\<lambda>ev. (fst ev, JArray (snd ev))) HOOKS_CONFIG))] \<and>
   merge [(''model'', JString ''opus''),
          (''hooks'', JObject (map (\<lambda>ev. (fst ev, JArray (snd ev))) HOOKS_CONFIG))] =
     Inr [(''model'', JString ''opus''),
          (''hooks'', JObject (map (\<lambda>ev. (fst ev, JArray (snd ev))) HOOKS_CONFIG))]"
proof -
  have first: "merge [(''model'', JString ''opus'')] =
     Inr [(''model'', JString ''opus''),
          (''hooks'', JObject (map (\<lambda>ev. (fst ev, JArray (snd ev))) HOOKS_CONFIG))]"
    by (simp add: merge_eval)
  from first merge_idempotent [OF first] show ?thesis by (rule conjI)
qed

text \<open>
  C10 at a document whose only event holds only our group: the first prune deletes the
  event and the hooks section, the second changes nothing.
\<close>

theorem prune_idempotent_witness:
  "prune [(''model'', JString ''opus''),
          (''hooks'', JObject [(''Stop'', JArray [JObject [(''hooks'', JArray [hook_action])]])])] =
     [(''model'', JString ''opus'')] \<and>
   prune (prune [(''model'', JString ''opus''),
          (''hooks'', JObject [(''Stop'', JArray [JObject [(''hooks'', JArray [hook_action])]])])]) =
     [(''model'', JString ''opus'')]"
proof -
  have first: "prune [(''model'', JString ''opus''),
          (''hooks'', JObject [(''Stop'', JArray [JObject [(''hooks'', JArray [hook_action])]])])] =
     [(''model'', JString ''opus'')]"
    by (simp add: prune_eval)
  from first prune_idempotent [of "[(''model'', JString ''opus''),
          (''hooks'', JObject [(''Stop'', JArray [JObject [(''hooks'', JArray [hook_action])]])])]"]
  show ?thesis by simp
qed

lemmas all_eval = merge_def merge_event_def HOOKS_CONFIG_def hook_names_def hasOurHook_def
  entry_has_our_hook_def is_our_command_def hook_action_def HOOK_COMMAND_def DEFAULT_PORT_def
  prune_def prune_event_def removeOurHookEntries_def keeps_entry_def hasOnlyOurHook_def
  event_entries_def spec_isOurs_def

text \<open>
  C5 as amended, at scenario B of the specification: \<open>hooks.Stop\<close> holds one unrelated
  user group; the merge returns, and \<open>hooks.Stop\<close> then holds the user's group first
  and ours second.
\<close>

theorem merge_event_policy_witness:
  "(''Stop'', [JObject [(''hooks'', JArray [hook_action])]]) \<in> set HOOKS_CONFIG \<and>
   (\<exists>d'. merge [(''hooks'', JObject [(''Stop'', JArray [JObject [(''matcher'', JString ''Bash''),
         (''hooks'', JArray [JObject [(''type'', JString ''command''),
                                      (''command'', JString ''echo done'')]])]])])] = Inr d' \<and>
      event_entries d' ''Stop'' =
        Some (JArray [JObject [(''matcher'', JString ''Bash''),
                        (''hooks'', JArray [JObject [(''type'', JString ''command''),
                                                     (''command'', JString ''echo done'')]])],
                      JObject [(''hooks'', JArray [hook_action])]]))"
proof -
  let ?U = "JObject [(''matcher'', JString ''Bash''),
       (''hooks'', JArray [JObject [(''type'', JString ''command''),
                                    (''command'', JString ''echo done'')]])]"
  let ?D = "[(''hooks'', JObject [(''Stop'', JArray [?U])])]"
  have sec: "map_of ?D ''hooks'' = None \<or>
      (\<exists>v. map_of ?D ''hooks'' = Some v \<and> (\<not> truthy v \<or> (\<exists>h. v = JObject h)))"
    by simp
  have c: "(''Stop'', [JObject [(''hooks'', JArray [hook_action])]]) \<in> set HOOKS_CONFIG"
    by (simp add: HOOKS_CONFIG_def)
  have "\<not> hasOurHook [?U]"
    by (simp add: hasOurHook_def entry_has_our_hook_def is_our_command_def)
  with merge_event_policy [OF sec c]
  have "\<exists>d'. merge ?D = Inr d' \<and> event_entries d' ''Stop'' =
      Some (JArray [?U, JObject [(''hooks'', JArray [hook_action])]])"
    by (simp add: event_entries_def)
  with c show ?thesis by blast
qed

text \<open>
  C5 as stated fails where \<open>hooks\<close> is an array: the document has no array at
  \<open>hooks.Stop\<close>, the merge returns, and the document written still has nothing at
  \<open>hooks.Stop\<close> instead of the canonical sequence. Where \<open>hooks\<close> is a non-empty
  string the merge throws and yields no document at all.
\<close>

theorem merge_event_policy_counterexample:
  "(''Stop'', [JObject [(''hooks'', JArray [hook_action])]]) \<in> set HOOKS_CONFIG \<and>
   event_entries [(''hooks'', JArray [])] ''Stop'' = None \<and>
   merge [(''hooks'', JArray [])] = Inr [(''hooks'', JArray [])] \<and>
   event_entries (projr (merge [(''hooks'', JArray [])])) ''Stop'' = None \<and>
   merge [(''hooks'', JString ''off'')] = Inl TypeError"
  by (simp add: merge_def event_entries_def HOOKS_CONFIG_def)

text \<open>
  C6 as amended, at the document of scenario B after a setup: \<open>hooks.Stop\<close> holds the
  user's group and our canonical group, and stays so through two merges.
\<close>

theorem merge_no_duplicate_witness:
  "(''Stop'', [JObject [(''hooks'', JArray [hook_action])]]) \<in> set HOOKS_CONFIG \<and>
   event_entries
     [(''hooks'', JObject [(''Stop'', JArray [JObject [(''matcher'', JString ''Bash''),
         (''hooks'', JArray [JObject [(''type'', JString ''command''),
                                      (''command'', JString ''echo done'')]])],
        JObject [(''hooks'', JArray [hook_action])]])])] ''Stop'' =
     Some (JArray [JObject [(''matcher'', JString ''Bash''),
         (''hooks'', JArray [JObject [(''type'', JString ''command''),
                                      (''command'', JString ''echo done'')]])],
        JObject [(''hooks'', JArray [hook_action])]]) \<and>
   (\<exists>d' d''.
      merge [(''hooks'', JObject [(''Stop'', JArray [JObject [(''matcher'', JString ''Bash''),
         (''hooks'', JArray [JObject [(''type'', JString ''command''),
                                      (''command'', JString ''echo done'')]])],
        JObject [(''hooks'', JArray [hook_action])]])])] = Inr d' \<and>
      merge d' = Inr d'' \<and>
      event_entries d' ''Stop'' =
        Some (JArray [JObject [(''matcher'', JString ''Bash''),
         (''hooks'', JArray [JObject [(''type'', JString ''command''),
                                      (''command'', JString ''echo done'')]])],
        JObject [(''hooks'', JArray [hook_action])]]) \<and>
      event_entries d'' ''Stop'' =
        Some (JArray [JObject [(''matcher'', JString ''Bash''),
         (''hooks'', JArray [JObject [(''type'', JString ''command''),
                                      (''command'', JString ''echo done'')]])],
        JObject [(''hooks'', JArray [hook_action])]]))"
proof -
  let ?U = "JObject [(''matcher'', JString ''Bash''),
       (''hooks'', JArray [JObject [(''type'', JString ''command''),
                                    (''command'', JString ''echo done'')]])]"
  let ?G = "JObject [(''hooks'', JArray [hook_action])]"
  let ?D = "[(''hooks'', JObject [(''Stop'', JArray [?U, ?G])])]"
  have c: "(''Stop'', [?G]) \<in> set HOOKS_CONFIG"
    by (simp add: HOOKS_CONFIG_def)
  have e: "event_entries ?D (fst (''Stop'', [?G])) = Some (JArray [?U, ?G])"
    by (simp add: event_entries_def)
  have g1: "?G \<in> set (snd (''Stop'', [?G]))" by simp
  have g2: "?G \<in> set [?U, ?G]" by simp
  from merge_no_duplicate [OF c e g1 g2] c e show ?thesis by simp
qed

text \<open>
  C6 as stated fails where \<open>hooks.Stop\<close> holds our canonical group twice: the document
  contains our canonical group, both merges succeed, and the event still holds two groups
  of ours afterwards, not exactly one.
\<close>

theorem merge_no_duplicate_counterexample:
  "(''Stop'', [JObject [(''hooks'', JArray [hook_action])]]) \<in> set HOOKS_CONFIG \<and>
   \<not> isl (merge [(''hooks'', JObject [(''Stop'',
        JArray [JObject [(''hooks'', JArray [hook_action])],
                JObject [(''hooks'', JArray [hook_action])]])])]) \<and>
   \<not> isl (merge (projr (merge [(''hooks'', JObject [(''Stop'',
        JArray [JObject [(''hooks'', JArray [hook_action])],
                JObject [(''hooks'', JArray [hook_action])]])])]))) \<and>
   event_entries (projr (merge (projr (merge [(''hooks'', JObject [(''Stop'',
        JArray [JObject [(''hooks'', JArray [hook_action])],
                JObject [(''hooks'', JArray [hook_action])]])])])))) ''Stop'' =
     Some (JArray [JObject [(''hooks'', JArray [hook_action])],
                   JObject [(''hooks'', JArray [hook_action])]]) \<and>
   length (filter spec_isOurs [JObject [(''hooks'', JArray [hook_action])],
                               JObject [(''hooks'', JArray [hook_action])]]) = 2"
  by (simp add: all_eval)

text \<open>
  C7 at a group of \<open>hooks.Stop\<close> that holds the user's \<open>echo done\<close> next to our action:
  the loose check finds it, merge leaves the sequence as it is, and prune keeps the group.
\<close>

theorem mixed_group_asymmetry_witness:
  "hasOurHook [JObject [(''hooks'', JArray
       [JObject [(''type'', JString ''command''), (''command'', JString ''echo done'')],
        hook_action])]] \<and>
   (\<exists>d'. merge [(''hooks'', JObject [(''Stop'', JArray [JObject [(''hooks'', JArray
       [JObject [(''type'', JString ''command''), (''command'', JString ''echo done'')],
        hook_action])]])])] = Inr d' \<and>
      event_entries d' ''Stop'' = Some (JArray [JObject [(''hooks'', JArray
       [JObject [(''type'', JString ''command''), (''command'', JString ''echo done'')],
        hook_action])]])) \<and>
   event_entries (prune [(''hooks'', JObject [(''Stop'', JArray [JObject [(''hooks'', JArray
       [JObject [(''type'', JString ''command''), (''command'', JString ''echo done'')],
        hook_action])]])])]) ''Stop'' =
     Some (JArray [JObject [(''hooks'', JArray
       [JObject [(''type'', JString ''command''), (''command'', JString ''echo done'')],
        hook_action])]])"
proof -
  let ?F = "JObject [(''type'', JString ''command''), (''command'', JString ''echo done'')]"
  let ?M = "JObject [(''hooks'', JArray [?F, hook_action])]"
  let ?D = "[(''hooks'', JObject [(''Stop'', JArray [?M])])]"
  let ?ev = "(''Stop'', [JObject [(''hooks'', JArray [hook_action])]])"
  have hs: "field ?M ''hooks'' = Some (JArray [?F, hook_action])" by simp
  have f1: "?F \<in> set [?F, hook_action]" by simp
  have f2: "field ?F ''command'' = Some (JString ''echo done'')" by simp
  have f3: "\<not> str_includes ''echo done'' ''localhost:8765/hook''" by simp
  have o1: "hook_action \<in> set [?F, hook_action]" by simp
  have o2: "field hook_action ''command'' = Some (JString HOOK_COMMAND)"
    by (simp add: hook_action_def)
  have o3: "str_includes HOOK_COMMAND ''localhost:8765/hook''"
    by (simp add: HOOK_COMMAND_def DEFAULT_PORT_def)
  have c: "?ev \<in> set HOOKS_CONFIG" by (simp add: HOOKS_CONFIG_def)
  have e: "event_entries ?D (fst ?ev) = Some (JArray [?M])" by (simp add: event_entries_def)
  have g: "?M \<in> set [?M]" by simp
  have kept: "removeOurHookEntries [?M] = [?M]"
    by (simp add: removeOurHookEntries_def keeps_entry_def hasOnlyOurHook_def
          is_our_command_def)
  from mixed_group_asymmetry [OF hs f1 f2 f3 o1 o2 o3 c e g] show ?thesis
    by (simp add: kept)
qed

text \<open>
  Scenario D of the specification: \<open>hooks.SessionStart\<close> holds only our group and is the
  only event; prune deletes the event key and with it the \<open>hooks\<close> key.
\<close>

lemma prune_cleanup_scenario_D:
  "event_entries
     (prune [(''theme'', JString ''dark''),
             (''hooks'', JObject [(''SessionStart'', JArray [JObject [(''hooks'', JArray [hook_action])]])])])
     ''SessionStart'' = None \<and>
   ''hooks'' \<notin> fst ` set
     (prune [(''theme'', JString ''dark''),
             (''hooks'', JObject [(''SessionStart'', JArray [JObject [(''hooks'', JArray [hook_action])]])])])"
proof -
  let ?G = "JObject [(''hooks'', JArray [hook_action])]"
  let ?h = "[(''SessionStart'', JArray [?G])]"
  let ?D = "[(''theme'', JString ''dark''), (''hooks'', JObject ?h)]"
  have h: "map_of ?D ''hooks'' = Some (JObject ?h)" by simp
  have names: "''SessionStart'' \<in> set hook_names"
    by (simp add: hook_names_def HOOKS_CONFIG_def)
  have emptied: "removeOurHookEntries [?G] = []"
    by (simp add: removeOurHookEntries_def keeps_entry_def hasOnlyOurHook_def
          our_command_HOOK_COMMAND)
  from prune_cleanup_code_filter [OF h]
  have 1: "\<forall>E xs. E \<in> set hook_names \<and> map_of ?h E = Some (JArray xs) \<longrightarrow>
            event_entries (prune ?D) E =
              (if removeOurHookEntries xs = [] then None
               else Some (JArray (removeOurHookEntries xs)))"
    and 2: "''hooks'' \<notin> fst ` set (prune ?D) \<longleftrightarrow>
            (\<forall>k \<in> fst ` set ?h. k \<in> set hook_names \<and>
               (\<exists>xs. map_of ?h k = Some (JArray xs) \<and> removeOurHookEntries xs = []))"
    by blast+
  from 1 names emptied have "event_entries (prune ?D) ''SessionStart'' = None"
    by simp
  moreover from 2 names emptied have "''hooks'' \<notin> fst ` set (prune ?D)"
    by simp
  ultimately show ?thesis by (rule conjI)
qed

text \<open>
  C8 at a document whose \<open>hooks.SessionStart\<close> holds one group with an empty \<open>hooks\<close>
  sequence: the strict check of the specification does not take the group for ours, so
  filtering out the groups that are entirely ours leaves the sequence as it is, and the
  claim has the event keep it. The code's filter drops the group, and prune deletes the
  event key and the \<open>hooks\<close> key.
\<close>

theorem prune_cleanup_empty_group:
  "\<not> spec_isOurs (JObject [(''hooks'', JArray [])]) \<and>
   filter (\<lambda>g. \<not> spec_isOurs g) [JObject [(''hooks'', JArray [])]] =
     [JObject [(''hooks'', JArray [])]] \<and>
   event_entries
     (prune [(''theme'', JString ''dark''),
             (''hooks'', JObject [(''SessionStart'', JArray [JObject [(''hooks'', JArray [])]])])])
     ''SessionStart'' = None \<and>
   prune [(''theme'', JString ''dark''),
          (''hooks'', JObject [(''SessionStart'', JArray [JObject [(''hooks'', JArray [])]])])] =
     [(''theme'', JString ''dark'')]"
  by (simp add: all_eval)

text \<open>
  C9 at five files: a catalog event key with a value that is not ours counts; a section
  with only another event, a hooks value that is a string, a missing file and an
  unparsable file do not.
\<close>

theorem areHooksConfigured_iff_witness:
  "areHooksConfigured (Parsed (JObject [(''hooks'', JObject [(''Stop'', JNull)])])) \<and>
   \<not> areHooksConfigured (Parsed (JObject [(''hooks'', JObject [(''SubagentStop'', JArray [])])])) \<and>
   \<not> areHooksConfigured (Parsed (JObject [(''hooks'', JString ''Stop'')])) \<and>
   \<not> areHooksConfigured Missing \<and> \<not> areHooksConfigured Unparsable"
proof -
  have names: "set hook_names = {''UserPromptSubmit'', ''PreToolUse'', ''Stop'', ''SessionStart'',
      ''SessionEnd'', ''Notification''}"
    by (simp add: hook_names_def HOOKS_CONFIG_def)
  from areHooksConfigured_iff [of "Parsed (JObject [(''hooks'', JObject [(''Stop'', JNull)])])"]
  have a: "areHooksConfigured (Parsed (JObject [(''hooks'', JObject [(''Stop'', JNull)])]))"
    by (simp add: names)
  from areHooksConfigured_iff
    [of "Parsed (JObject [(''hooks'', JObject [(''SubagentStop'', JArray [])])])"]
  have b: "\<not> areHooksConfigured (Parsed (JObject [(''hooks'', JObject [(''SubagentStop'', JArray [])])]))"
    by (simp add: names)
  from areHooksConfigured_iff [of "Parsed (JObject [(''hooks'', JString ''Stop'')])"]
  have c: "\<not> areHooksConfigured (Parsed (JObject [(''hooks'', JString ''Stop'')]))"
    by simp
  from areHooksConfigured_iff [of Missing]
  have d: "\<not> areHooksConfigured Missing \<and> \<not> areHooksConfigured Unparsable"
    by simp
  from a b c d show ?thesis by blast
qed

lemma subseq_singleton: "subseq ys [x] \<Longrightarrow> ys = [] \<or> ys = [x]"
  by (cases ys) (auto simp: subseq_Cons2_iff split: if_splits)

text \<open>
  C1 as amended, at scenarios B and C of the specification: after merge and prune,
  \<open>hooks.Stop\<close> holds exactly the user's group again, the catalog event \<open>SessionEnd\<close>,
  which the document did not have, is absent, and so is \<open>SubagentStop\<close>, an event
  outside the catalog that the document did not have either.
\<close>

theorem prune_merge_round_trip_witness:
  "merge [(''hooks'', JObject
      [(''Stop'', JArray [JObject [(''matcher'', JString ''Bash''),
          (''hooks'', JArray [JObject [(''type'', JString ''command''),
                                       (''command'', JString ''echo done'')]])]])])] =
     Inr (projr (merge [(''hooks'', JObject
      [(''Stop'', JArray [JObject [(''matcher'', JString ''Bash''),
          (''hooks'', JArray [JObject [(''type'', JString ''command''),
                                       (''command'', JString ''echo done'')]])]])])])) \<and>
   event_entries (prune (projr (merge [(''hooks'', JObject
      [(''Stop'', JArray [JObject [(''matcher'', JString ''Bash''),
          (''hooks'', JArray [JObject [(''type'', JString ''command''),
                                       (''command'', JString ''echo done'')]])]])])]))) ''Stop'' =
     Some (JArray [JObject [(''matcher'', JString ''Bash''),
          (''hooks'', JArray [JObject [(''type'', JString ''command''),
                                       (''command'', JString ''echo done'')]])]]) \<and>
   event_entries (prune (projr (merge [(''hooks'', JObject
      [(''Stop'', JArray [JObject [(''matcher'', JString ''Bash''),
          (''hooks'', JArray [JObject [(''type'', JString ''command''),
                                       (''command'', JString ''echo done'')]])]])])]))) ''SessionEnd'' =
     None \<and>
   event_entries (prune (projr (merge [(''hooks'', JObject
      [(''Stop'', JArray [JObject [(''matcher'', JString ''Bash''),
          (''hooks'', JArray [JObject [(''type'', JString ''command''),
                                       (''command'', JString ''echo done'')]])]])])]))) ''SubagentStop'' =
     None"
proof -
  let ?U = "JObject [(''matcher'', JString ''Bash''),
          (''hooks'', JArray [JObject [(''type'', JString ''command''),
                                       (''command'', JString ''echo done'')]])]"
  let ?D = "[(''hooks'', JObject [(''Stop'', JArray [?U])])]"
  let ?R = "prune (projr (merge ?D))"
  have m: "merge ?D = Inr (projr (merge ?D))" by (simp add: merge_def)
  have names: "''Stop'' \<in> set hook_names" "''SessionEnd'' \<in> set hook_names"
    "''SubagentStop'' \<notin> set hook_names"
    by (simp_all add: hook_names_def HOOKS_CONFIG_def)
  have o1: "[?U] = (case as_array (event_entries ?D ''Stop'') of None \<Rightarrow> [] | Some xs \<Rightarrow> xs)"
    by (simp add: event_entries_def)
  have o2: "[] = (case as_array (event_entries ?D ''SessionEnd'') of None \<Rightarrow> [] | Some xs \<Rightarrow> xs)"
    by (simp add: event_entries_def)
  have o3: "[] = (case as_array (event_entries ?D ''SubagentStop'') of None \<Rightarrow> [] | Some xs \<Rightarrow> xs)"
    by (simp add: event_entries_def)
  have foreign: "\<not> spec_isOurs ?U"
    by (simp add: spec_isOurs_def is_our_command_def)
  from prune_merge_round_trip [OF m o1] names(1) foreign
  obtain ys where y1: "event_entries ?R ''Stop'' = (if ys = [] then None else Some (JArray ys))"
    and y2: "filter (\<lambda>g. as_array (field g ''hooks'') \<noteq> Some []) ys = [?U]"
    and y3: "subseq ys [?U]"
    by auto
  from subseq_singleton [OF y3] y2 have "ys = [?U]" by auto
  with y1 have a: "event_entries ?R ''Stop'' = Some (JArray [?U])" by simp
  from prune_merge_round_trip [OF m o2] names(2)
  have b: "event_entries ?R ''SessionEnd'' = None" by auto
  from prune_merge_round_trip [OF m o3] names(3)
  have c: "event_entries ?R ''SubagentStop'' = None" by (simp add: event_entries_def)
  from m a b c show ?thesis by blast
qed

text \<open>
  C1 as stated fails at an event outside the catalog: \<open>hooks.SubagentStop\<close> holds only a
  group of ours, so its original sequence has no group that is not ours, yet after merge
  and prune the event is still present with that group.
\<close>

theorem round_trip_counterexample:
  "\<not> isl (merge [(''hooks'', JObject
       [(''SubagentStop'', JArray [JObject [(''hooks'', JArray [hook_action])]])])]) \<and>
   spec_isOurs (JObject [(''hooks'', JArray [hook_action])]) \<and>
   event_entries [(''hooks'', JObject
       [(''SubagentStop'', JArray [JObject [(''hooks'', JArray [hook_action])]])])] ''SubagentStop'' =
     Some (JArray [JObject [(''hooks'', JArray [hook_action])]]) \<and>
   event_entries (prune (projr (merge [(''hooks'', JObject
       [(''SubagentStop'', JArray [JObject [(''hooks'', JArray [hook_action])]])])])))
     ''SubagentStop'' = Some (JArray [JObject [(''hooks'', JArray [hook_action])]])"
  by (simp add: all_eval)

text \<open>
  C4 at a user's group with a matcher and an empty \<open>hooks\<close> sequence: the specification's
  strict check and the loose check \<open>hasOurHook\<close> both say it is not ours, but
  \<open>every\<close> holds of the empty array, so the filter of \<open>removeOurHookEntries\<close> drops the
  group and prune deletes it together with the event and the hooks section.
\<close>

theorem empty_group_classified_ours:
  "\<not> spec_isOurs (JObject [(''matcher'', JString ''Bash''), (''hooks'', JArray [])]) \<and>
   \<not> hasOurHook [JObject [(''matcher'', JString ''Bash''), (''hooks'', JArray [])]] \<and>
   \<not> keeps_entry (JObject [(''matcher'', JString ''Bash''), (''hooks'', JArray [])]) \<and>
   removeOurHookEntries [JObject [(''matcher'', JString ''Bash''), (''hooks'', JArray [])]] = [] \<and>
   prune [(''hooks'', JObject [(''Stop'',
       JArray [JObject [(''matcher'', JString ''Bash''), (''hooks'', JArray [])]])])] = []"
  by (simp add: all_eval)

text \<open>
  C3 at a document with a foreign key and two user groups under \<open>PreToolUse\<close>, the
  first with an empty \<open>hooks\<close> sequence: prune leaves the foreign key and the second
  group as they were and removes the first, although it is not ours.
\<close>

theorem prune_drops_empty_group:
  "\<not> spec_isOurs (JObject [(''matcher'', JString ''Bash''), (''hooks'', JArray [])]) \<and>
   prune [(''model'', JString ''opus''),
          (''hooks'', JObject [(''PreToolUse'',
             JArray [JObject [(''matcher'', JString ''Bash''), (''hooks'', JArray [])],
                     JObject [(''matcher'', JString ''Edit''),
                       (''hooks'', JArray [JObject [(''type'', JString ''command''),
                                                    (''command'', JString ''echo done'')]])]])])] =
     [(''model'', JString ''opus''),
      (''hooks'', JObject [(''PreToolUse'',
             JArray [JObject [(''matcher'', JString ''Edit''),
                       (''hooks'', JArray [JObject [(''type'', JString ''command''),
                                                    (''command'', JString ''echo done'')]])]])])]"
  by (simp add: all_eval)

end
